theory Spec2Isabelle
  imports Main
begin

section \<open>Page extraction of ebooklib/utils.py\<close>

text \<open>
  The development embeds \<^verbatim>\<open>get_headers\<close>, \<^verbatim>\<open>get_pages\<close> and
  \<^verbatim>\<open>get_pages_for_items\<close> of \<^verbatim>\<open>src/ebooklib/utils.py\<close>, together with the
  part of the lxml element interface they call.

  Python strings are \<^typ>\<open>string\<close>; a character stands for the code point of the same
  number (0 to 255).
\<close>

subsection \<open>Strings\<close>

text \<open>
  \<^verbatim>\<open>str.isspace\<close> on the code points below 256: the controls 9 to 13 and 28 to 31, the
  space, NEL (133) and the no-break space (160).
\<close>

definition isspace :: "char \<Rightarrow> bool" where
  "isspace c =
     (let n = (of_char c :: nat)
      in (9 \<le> n \<and> n \<le> 13) \<or> (28 \<le> n \<and> n \<le> 32) \<or> n = 133 \<or> n = 160)"

text \<open>\<^verbatim>\<open>s.strip()\<close>: the leading and the trailing whitespace removed.\<close>

definition strip :: "string \<Rightarrow> string" where
  "strip s = rev (dropWhile isspace (rev (dropWhile isspace s)))"

subsection \<open>The element tree\<close>

text \<open>
  A node of an lxml tree. An element has a tag, its attributes (name and value, the
  first entry of a name being the one \<^verbatim>\<open>attrib\<close> holds), the text before its first
  child (\<^verbatim>\<open>elem.text\<close>, \<^verbatim>\<open>None\<close> when there is none), its children and the text that
  follows its end tag (\<^verbatim>\<open>elem.tail\<close>). A comment (or a processing instruction)
  has its content and its tail; its \<^verbatim>\<open>attrib\<close> is the empty mapping, \<^verbatim>\<open>get\<close>
  answers \<^verbatim>\<open>None\<close> on it and it has no children. An attribute written
  \<^verbatim>\<open>epub:type\<close> in HTML markup is kept by the HTML parser under the name
  \<^verbatim>\<open>epub:type\<close>; an attribute lxml holds in a namespace has the name
  \<^verbatim>\<open>{uri}type\<close>.
\<close>

datatype node =
    Element (tag: string) (attrib: "(string \<times> string) list")
            (elem_text: "string option") (children: "node list")
            (tail: "string option")
  | Comment (elem_text: "string option") (tail: "string option")
where
  "tag (Comment x y) = []"
| "attrib (Comment x y) = []"
| "children (Comment x y) = []"

text \<open>\<^verbatim>\<open>elem.get(key)\<close>: the value of the attribute, \<^verbatim>\<open>None\<close> when it is absent.\<close>

definition get_attr :: "node \<Rightarrow> string \<Rightarrow> string option" where
  "get_attr elem key = map_of (attrib elem) key"

text \<open>\<^verbatim>\<open>key in elem.attrib\<close>.\<close>

definition attrib_contains :: "node \<Rightarrow> string \<Rightarrow> bool" where
  "attrib_contains elem key = (map_of (attrib elem) key \<noteq> None)"

text \<open>A Python string or \<^verbatim>\<open>None\<close>, read as a string (\<^verbatim>\<open>None\<close> as the empty one).\<close>

definition str_or_empty :: "string option \<Rightarrow> string" where
  "str_or_empty t = (case t of None \<Rightarrow> [] | Some s \<Rightarrow> s)"

text \<open>
  \<^verbatim>\<open>elem.iter()\<close>: the node itself, then its descendants, in document order
  (elements and comments alike).
\<close>

fun iter :: "node \<Rightarrow> node list" where
  "iter (Element t a x cs y) = Element t a x cs y # concat (map iter cs)"
| "iter (Comment x y) = [Comment x y]"

text \<open>
  \<^verbatim>\<open>elem.text_content()\<close>, the XPath string value of an element: its text nodes and
  those of its descendants, in document order. A child contributes its own string
  value and then its tail; a comment among the descendants contributes its tail only.
\<close>

fun text_content :: "node \<Rightarrow> string" where
  "text_content (Element t a x cs y) =
     str_or_empty x @ concat (map (\<lambda>c. text_content c @ str_or_empty (tail c)) cs)"
| "text_content (Comment x y) = []"

text \<open>
  \<^verbatim>\<open>elem.xpath("./" + name)\<close>: the child elements of that tag, in document order.
\<close>

definition xpath_child :: "node \<Rightarrow> string \<Rightarrow> node list" where
  "xpath_child elem nm = filter (\<lambda>c. is_Element c \<and> tag c = nm) (children elem)"

subsection \<open>get_headers\<close>

text \<open>The tag name \<^verbatim>\<open>f"h{n}"\<close>, for a level of one digit.\<close>

definition h_tag :: "nat \<Rightarrow> string" where
  "h_tag n = CHR ''h'' # [char_of (48 + n)]"

text \<open>
  The loop of \<^verbatim>\<open>get_headers\<close> over the levels still to try: the first header of a
  level decides that level.
\<close>

fun get_headers_loop :: "node \<Rightarrow> nat list \<Rightarrow> string option" where
  "get_headers_loop elem [] = None"
| "get_headers_loop elem (n # ns) =
     (let headers = xpath_child elem (h_tag n)
      in case headers of
           [] \<Rightarrow> get_headers_loop elem ns
         | h # _ \<Rightarrow>
             (let text = strip (text_content h)
              in if length text > 0 then Some text else get_headers_loop elem ns))"

definition get_headers :: "node \<Rightarrow> string option" where
  "get_headers elem = get_headers_loop elem [1..<7]"

subsection \<open>get_pages\<close>

text \<open>A page: the item's name, the anchor id and the label.\<close>

type_synonym page = "string \<times> string \<times> string"

text \<open>
  The content item: what \<^verbatim>\<open>get_name()\<close> and \<^verbatim>\<open>get_body_content()\<close> return. The
  class is declared outside this module.
\<close>

record epub_item =
  get_name :: string
  get_body_content :: string

datatype error = ParserError

text \<open>
  \<^verbatim>\<open>parse_html_string\<close> hands the string to \<^verbatim>\<open>lxml.html.document_fromstring\<close> and returns
  its result; it has no handler. The library function is a parameter: it returns the
  root element or raises.
\<close>

definition parse_html_string :: "(string \<Rightarrow> error + node) \<Rightarrow> string \<Rightarrow> error + node" where
  "parse_html_string document_fromstring s = document_fromstring s"

text \<open>Python's \<^verbatim>\<open>t or d\<close> for a string or \<^verbatim>\<open>None\<close> on the left.\<close>

definition py_or :: "string option \<Rightarrow> string \<Rightarrow> string" where
  "py_or t d = (case t of None \<Rightarrow> d | Some s \<Rightarrow> if s = [] then d else s)"

text \<open>The value of \<^verbatim>\<open>_text\<close> when the page is appended (lines 114 to 123).\<close>

definition label_text :: "node \<Rightarrow> string option" where
  "label_text elem =
     (let t0 = None;
          t1 = (case elem_text elem of
                  None \<Rightarrow> t0
                | Some s \<Rightarrow> if strip s \<noteq> [] then Some (strip s) else t0);
          t2 = (if t1 = None then get_attr elem ''aria-label'' else t1);
          t3 = (if t2 = None then get_headers elem else t2)
      in t3)"

text \<open>One turn of the loop of \<^verbatim>\<open>get_pages\<close>, on the pages collected so far.\<close>

definition get_pages_step :: "string \<Rightarrow> page list \<Rightarrow> node \<Rightarrow> page list" where
  "get_pages_step nm pages elem =
     (if attrib_contains elem ''epub:type'' then
        (case get_attr elem ''id'' of
           None \<Rightarrow> pages
         | Some i \<Rightarrow> pages @ [(nm, i, py_or (label_text elem) i)])
      else pages)"

definition get_pages_tree :: "string \<Rightarrow> node \<Rightarrow> page list" where
  "get_pages_tree nm body = foldl (get_pages_step nm) [] (iter body)"

definition get_pages :: "(string \<Rightarrow> error + node) \<Rightarrow> 'a epub_item_scheme \<Rightarrow> error + page list" where
  "get_pages document_fromstring item =
     (case parse_html_string document_fromstring (get_body_content item) of
        Inl e \<Rightarrow> Inl e
      | Inr body \<Rightarrow> Inr (get_pages_tree (get_name item) body))"

subsection \<open>get_pages_for_items\<close>

text \<open>
  The first comprehension calls \<^verbatim>\<open>get_pages\<close> on each item in turn; the first call
  that raises ends it.
\<close>

fun pages_from_docs :: "(string \<Rightarrow> error + node) \<Rightarrow> 'a epub_item_scheme list \<Rightarrow> error + page list list" where
  "pages_from_docs P [] = Inr []"
| "pages_from_docs P (item # items) =
     (case get_pages P item of
        Inl e \<Rightarrow> Inl e
      | Inr pages \<Rightarrow>
          (case pages_from_docs P items of
             Inl e \<Rightarrow> Inl e
           | Inr rest \<Rightarrow> Inr (pages # rest)))"

definition get_pages_for_items :: "(string \<Rightarrow> error + node) \<Rightarrow> 'a epub_item_scheme list \<Rightarrow> error + page list" where
  "get_pages_for_items P items =
     (case pages_from_docs P items of
        Inl e \<Rightarrow> Inl e
      | Inr docs \<Rightarrow> Inr (concat docs))"

section \<open>Notions used in the statements\<close>

text \<open>
  The number of qualifying nodes among the first \<open>k\<close> nodes of the traversal: the
  position, in the list \<^verbatim>\<open>pages\<close>, of the page of the node at index \<open>k\<close> when that
  node qualifies.
\<close>

definition landmark_rank :: "node \<Rightarrow> nat \<Rightarrow> nat" where
  "landmark_rank body k =
     length (filter (\<lambda>e. attrib_contains e ''epub:type'' \<and> get_attr e ''id'' \<noteq> None)
               (take k (iter body)))"

subsection \<open>Example trees\<close>

text \<open>
  A body with two chapters, the first holding a page break:
  \<^verbatim>\<open><body><section epub:type="chapter" id="c1"><span epub:type="pagebreak" id="p1">1</span></section><section epub:type="chapter" id="c2"></section></body>\<close>
\<close>

definition nested_landmarks :: node where
  "nested_landmarks =
     Element ''body'' [] None
       [Element ''section'' [(''epub:type'', ''chapter''), (''id'', ''c1'')] None
          [Element ''span'' [(''epub:type'', ''pagebreak''), (''id'', ''p1'')] (Some ''1'') [] None]
          None,
        Element ''section'' [(''epub:type'', ''chapter''), (''id'', ''c2'')] None [] None]
       None"

text \<open>
  The label as C2 words it: the first non-empty candidate among the trimmed direct
  text, the \<^verbatim>\<open>aria-label\<close> value, the heading found by \<^verbatim>\<open>get_headers\<close> and the id
  (an absent candidate counting as empty).
\<close>

definition spec_first_nonempty_candidate :: "node \<Rightarrow> string \<Rightarrow> string" where
  "spec_first_nonempty_candidate e i =
     (case filter (\<lambda>t. t \<noteq> [])
             [strip (str_or_empty (elem_text e)), str_or_empty (get_attr e ''aria-label''),
              str_or_empty (get_headers e), i] of
        [] \<Rightarrow> []
      | t # _ \<Rightarrow> t)"

text \<open>
  \<^verbatim>\<open><div epub:type="chapter" id="ch1" aria-label=""><h1>Intro</h1></div>\<close>, the same
  with \<^verbatim>\<open>aria-label=" "\<close>, and a chapter with direct text, an \<^verbatim>\<open>aria-label\<close> and a
  heading.
\<close>

definition empty_aria_label :: node where
  "empty_aria_label =
     Element ''div'' [(''epub:type'', ''chapter''), (''id'', ''ch1''), (''aria-label'', '''')] None
       [Element ''h1'' [] (Some ''Intro'') [] None] None"

definition blank_aria_label :: node where
  "blank_aria_label =
     Element ''div'' [(''epub:type'', ''chapter''), (''id'', ''ch1''), (''aria-label'', '' '')] None
       [Element ''h1'' [] (Some ''Intro'') [] None] None"

definition text_and_heading :: node where
  "text_and_heading =
     Element ''div'' [(''epub:type'', ''chapter''), (''id'', ''ch1''), (''aria-label'', ''Label'')]
       (Some '' Page 1 '')
       [Element ''h1'' [] (Some ''Intro'') [] None] None"

text \<open>
  Headings: an \<^verbatim>\<open>h1\<close> that is not a direct child, an \<^verbatim>\<open>h3\<close> before an \<^verbatim>\<open>h2\<close> with
  nested text; headings that are all blank; a blank first \<^verbatim>\<open>h1\<close> followed by a second
  \<^verbatim>\<open>h1\<close> and an \<^verbatim>\<open>h2\<close>, and the same without the second \<^verbatim>\<open>h1\<close>.
\<close>

definition mixed_headings :: node where
  "mixed_headings =
     Element ''div'' [] (Some ''x'')
       [Comment (Some ''c'') None,
        Element ''p'' [] None [Element ''h1'' [] (Some ''Deep'') [] None] None,
        Element ''h3'' [] (Some ''Three'') [] None,
        Element ''h2'' [] (Some '' Part '')
          [Element ''em'' [] (Some ''One'') [] (Some '' of two '')] None]
       None"

definition blank_headings :: node where
  "blank_headings =
     Element ''div'' [] None
       [Element ''h1'' [] (Some '' '') [] None, Element ''h2'' [] None [] None] None"

definition blank_first_h1 :: node where
  "blank_first_h1 =
     Element ''div'' [] None
       [Element ''h1'' [] (Some '' '') [] None,
        Element ''h1'' [] (Some ''B'') [] None,
        Element ''h2'' [] (Some ''C'') [] None] None"

definition blank_only_h1 :: node where
  "blank_only_h1 =
     Element ''div'' [] None
       [Element ''h1'' [] (Some '' '') [] None,
        Element ''h2'' [] (Some ''C'') [] None] None"

text \<open>
  The result of \<^verbatim>\<open>get_headers\<close> as C5 words it: the trimmed flattened text of the first
  direct child heading with non-empty trimmed text, the headings taken level by level
  from \<^verbatim>\<open>h1\<close> to \<^verbatim>\<open>h6\<close> and every heading of a level being a candidate.
\<close>

definition spec_get_headers :: "node \<Rightarrow> string option" where
  "spec_get_headers elem =
     (case filter (\<lambda>t. t \<noteq> [])
             (map (\<lambda>h. strip (text_content h))
                (concat (map (\<lambda>n. xpath_child elem (h_tag n)) [1..<7]))) of
        [] \<Rightarrow> None
      | t # _ \<Rightarrow> Some t)"

text \<open>\<^verbatim>\<open><div><h1> </h1><h1>B</h1></div>\<close>: a blank \<^verbatim>\<open>h1\<close>, then an \<^verbatim>\<open>h1\<close> with text.\<close>

definition blank_then_text_h1 :: node where
  "blank_then_text_h1 =
     Element ''div'' [] None
       [Element ''h1'' [] (Some '' '') [] None,
        Element ''h1'' [] (Some ''B'') [] None] None"

subsection \<open>Example items\<close>

text \<open>
  A stand-in for \<^verbatim>\<open>lxml.html.document_fromstring\<close> in the examples. On the empty string
  it raises, as the library does (\<^verbatim>\<open>ParserError: Document is empty\<close>); the string
  \<^verbatim>\<open>plain\<close> gives a document without landmarks; any other string gives a document with
  one page break whose id is the string.
\<close>

definition sample_document_fromstring :: "string \<Rightarrow> error + node" where
  "sample_document_fromstring s =
     (if s = [] then Inl ParserError
      else if s = ''plain'' then
        Inr (Element ''html'' [] None
              [Element ''body'' [] None [Element ''p'' [] (Some s) [] None] None] None)
      else Inr (Element ''html'' [] None
                 [Element ''body'' [] None
                    [Element ''span'' [(''epub:type'', ''pagebreak''), (''id'', s)] None [] None,
                     Element ''p'' [] (Some s) [] None]
                    None]
                 None))"

definition item1 :: epub_item where
  "item1 = \<lparr>get_name = ''item1.xhtml'', get_body_content = ''p1''\<rparr>"

definition item2 :: epub_item where
  "item2 = \<lparr>get_name = ''item2.xhtml'', get_body_content = ''p1''\<rparr>"

definition no_landmark_item :: epub_item where
  "no_landmark_item = \<lparr>get_name = ''plain.xhtml'', get_body_content = ''plain''\<rparr>"

definition empty_item :: epub_item where
  "empty_item = \<lparr>get_name = ''empty.xhtml'', get_body_content = ''''\<rparr>"

section \<open>Properties\<close>

subsection \<open>The loop of get_pages as a filter\<close>

lemma attrib_contains_iff: "attrib_contains e k \<longleftrightarrow> k \<in> fst ` set (attrib e)"
  by (simp add: attrib_contains_def map_of_eq_None_iff)

lemma get_attr_None_iff: "get_attr e k = None \<longleftrightarrow> k \<notin> fst ` set (attrib e)"
  by (simp add: get_attr_def map_of_eq_None_iff)

lemma get_pages_step_cases:
  "get_pages_step nm pages e =
     (if ''epub:type'' \<in> fst ` set (attrib e) \<and> ''id'' \<in> fst ` set (attrib e)
      then pages @ [(nm, the (get_attr e ''id''), py_or (label_text e) (the (get_attr e ''id'')))]
      else pages)"
proof (cases "get_attr e ''id''")
  case None
  then show ?thesis
    using get_attr_None_iff [of e "''id''"] by (simp add: get_pages_step_def)
next
  case (Some i)
  then have "''id'' \<in> fst ` set (attrib e)"
    using get_attr_None_iff [of e "''id''"] by auto
  with Some show ?thesis
    by (simp add: get_pages_step_def attrib_contains_iff)
qed

lemma foldl_get_pages_step:
  "foldl (get_pages_step nm) acc xs =
     acc @ map (\<lambda>e. (nm, the (get_attr e ''id''), py_or (label_text e) (the (get_attr e ''id''))))
               (filter (\<lambda>e. ''epub:type'' \<in> fst ` set (attrib e) \<and> ''id'' \<in> fst ` set (attrib e)) xs)"
proof (induction xs arbitrary: acc)
  case Nil
  show ?case by simp
next
  case (Cons x xs)
  show ?case
    by (simp only: foldl_Cons Cons.IH get_pages_step_cases [of nm acc x]) simp
qed

lemma get_pages_tree_map_filter:
  "get_pages_tree nm body =
     map (\<lambda>e. (nm, the (get_attr e ''id''), py_or (label_text e) (the (get_attr e ''id''))))
         (filter (\<lambda>e. ''epub:type'' \<in> fst ` set (attrib e) \<and> ''id'' \<in> fst ` set (attrib e)) (iter body))"
  by (simp add: get_pages_tree_def foldl_get_pages_step)

subsection \<open>Which elements give a page\<close>

text \<open>
  C1, as the code has it. The pages of a tree are, in order, one page for each node of
  the traversal that has an attribute named \<^verbatim>\<open>epub:type\<close> and an attribute named
  \<^verbatim>\<open>id\<close>, and one turn of the loop appends a page exactly for such a node. The test
  is on the presence of the two names: the values are not looked at, so an empty value
  qualifies, and the name compared is the literal \<^verbatim>\<open>epub:type\<close>, no namespace URI
  being consulted.
\<close>

theorem get_pages_emits_iff_attributes_present:
  "get_pages_tree nm body =
     map (\<lambda>e. (nm, the (get_attr e ''id''), py_or (label_text e) (the (get_attr e ''id''))))
         (filter (\<lambda>e. ''epub:type'' \<in> fst ` set (attrib e) \<and> ''id'' \<in> fst ` set (attrib e)) (iter body))
   \<and> (get_pages_step nm pages e \<noteq> pages \<longleftrightarrow>
        ''epub:type'' \<in> fst ` set (attrib e) \<and> ''id'' \<in> fst ` set (attrib e))"
  by (simp add: get_pages_tree_map_filter get_pages_step_cases [of nm pages e])

text \<open>
  C1 as stated asks for a non-empty \<^verbatim>\<open>epub:type\<close> value. The element
  \<^verbatim>\<open><div epub:type="" id="p1"></div>\<close> has an empty one and still gives a page.
\<close>

theorem empty_epub_type_still_emits:
  "get_pages_tree ''item1.xhtml''
     (Element ''div'' [(''epub:type'', ''''), (''id'', ''p1'')] None [] None)
   = [(''item1.xhtml'', ''p1'', ''p1'')]"
  by code_simp

subsection \<open>Order of the pages\<close>

lemma filter_pos_nth:
  assumes "i < length xs" and "Q (xs ! i)"
  shows "length (filter Q (take i xs)) < length (filter Q xs)
         \<and> filter Q xs ! length (filter Q (take i xs)) = xs ! i"
proof -
  have "xs = take i xs @ xs ! i # drop (Suc i) xs"
    using assms(1) by (simp add: id_take_nth_drop)
  then have "filter Q xs = filter Q (take i xs) @ filter Q (xs ! i # drop (Suc i) xs)"
    by (metis filter_append)
  then have "filter Q xs = filter Q (take i xs) @ xs ! i # filter Q (drop (Suc i) xs)"
    using assms(2) by simp
  then show ?thesis
    by (simp add: nth_append)
qed

lemma filter_pos_mono:
  assumes "i < j" and "j \<le> length xs" and "Q (xs ! i)"
  shows "length (filter Q (take i xs)) < length (filter Q (take j xs))"
proof -
  have "i < length (take j xs)" using assms by simp
  moreover have "Q (take j xs ! i)" using assms by simp
  ultimately have "length (filter Q (take i (take j xs))) < length (filter Q (take j xs))"
    using filter_pos_nth [of i "take j xs" Q] by blast
  moreover have "take i (take j xs) = take i xs" using assms(1) by (simp add: min_def)
  ultimately show ?thesis by simp
qed

lemma landmark_pred_eq:
  "(\<lambda>e. attrib_contains e ''epub:type'' \<and> get_attr e ''id'' \<noteq> None)
   = (\<lambda>e. ''epub:type'' \<in> fst ` set (attrib e) \<and> ''id'' \<in> fst ` set (attrib e))"
  by (auto simp: attrib_contains_iff get_attr_None_iff fun_eq_iff)

lemma get_pages_tree_nth:
  assumes "k < length (iter body)"
    and "attrib_contains (iter body ! k) ''epub:type''"
    and "get_attr (iter body ! k) ''id'' = Some i"
  shows "landmark_rank body k < length (get_pages_tree nm body)
         \<and> get_pages_tree nm body ! landmark_rank body k
             = (nm, i, py_or (label_text (iter body ! k)) i)"
proof -
  let ?Q = "\<lambda>e. ''epub:type'' \<in> fst ` set (attrib e) \<and> ''id'' \<in> fst ` set (attrib e)"
  let ?F = "\<lambda>e. (nm, the (get_attr e ''id''), py_or (label_text e) (the (get_attr e ''id'')))"
  have q: "?Q (iter body ! k)"
    using assms(2,3) get_attr_None_iff [of "iter body ! k" "''id''"]
    by (simp add: attrib_contains_iff)
  have r: "landmark_rank body k = length (filter ?Q (take k (iter body)))"
    by (simp only: landmark_rank_def landmark_pred_eq)
  have p: "length (filter ?Q (take k (iter body))) < length (filter ?Q (iter body))
           \<and> filter ?Q (iter body) ! length (filter ?Q (take k (iter body))) = iter body ! k"
    using filter_pos_nth [of k "iter body" ?Q] assms(1) q by blast
  have t: "get_pages_tree nm body = map ?F (filter ?Q (iter body))"
    by (rule get_pages_tree_map_filter)
  show ?thesis
    using p assms(3) by (simp only: t r length_map nth_map) simp
qed

text \<open>
  C6. The traversal is in document order (\<^const>\<open>iter\<close>: a node, then the traversals of
  its children from left to right), and the pages keep it: when the nodes at the indices
  \<open>a < b\<close> of the traversal both qualify, the page of the first stands in the result
  at a position before the page of the second.
\<close>

theorem get_pages_document_order:
  assumes "a < b" and "b < length (iter body)"
    and "attrib_contains (iter body ! a) ''epub:type''"
    and "get_attr (iter body ! a) ''id'' = Some ia"
    and "attrib_contains (iter body ! b) ''epub:type''"
    and "get_attr (iter body ! b) ''id'' = Some ib"
  shows "landmark_rank body a < landmark_rank body b
         \<and> landmark_rank body b < length (get_pages_tree nm body)
         \<and> get_pages_tree nm body ! landmark_rank body a
             = (nm, ia, py_or (label_text (iter body ! a)) ia)
         \<and> get_pages_tree nm body ! landmark_rank body b
             = (nm, ib, py_or (label_text (iter body ! b)) ib)"
proof -
  have "landmark_rank body a < landmark_rank body b"
    unfolding landmark_rank_def
    using filter_pos_mono [of a b "iter body"
        "\<lambda>e. attrib_contains e ''epub:type'' \<and> get_attr e ''id'' \<noteq> None"] assms
    by simp
  moreover have "a < length (iter body)" using assms(1,2) by simp
  ultimately show ?thesis
    using get_pages_tree_nth [of a body ia nm] get_pages_tree_nth [of b body ib nm] assms
    by simp
qed

theorem get_pages_document_order_witness:
  "(2::nat) < 3 \<and> 3 < length (iter nested_landmarks)
   \<and> attrib_contains (iter nested_landmarks ! 2) ''epub:type''
   \<and> get_attr (iter nested_landmarks ! 2) ''id'' = Some ''p1''
   \<and> attrib_contains (iter nested_landmarks ! 3) ''epub:type''
   \<and> get_attr (iter nested_landmarks ! 3) ''id'' = Some ''c2''
   \<and> landmark_rank nested_landmarks 2 = 1 \<and> landmark_rank nested_landmarks 3 = 2
   \<and> get_pages_tree ''item1.xhtml'' nested_landmarks ! 1 = (''item1.xhtml'', ''p1'', ''1'')
   \<and> get_pages_tree ''item1.xhtml'' nested_landmarks ! 2 = (''item1.xhtml'', ''c2'', ''c2'')"
proof -
  have h1: "(2::nat) < 3" by simp
  have h2: "3 < length (iter nested_landmarks)" by code_simp
  have h3: "attrib_contains (iter nested_landmarks ! 2) ''epub:type''" by code_simp
  have h4: "get_attr (iter nested_landmarks ! 2) ''id'' = Some ''p1''" by code_simp
  have h5: "attrib_contains (iter nested_landmarks ! 3) ''epub:type''" by code_simp
  have h6: "get_attr (iter nested_landmarks ! 3) ''id'' = Some ''c2''" by code_simp
  have r2: "landmark_rank nested_landmarks 2 = 1" by code_simp
  have r3: "landmark_rank nested_landmarks 3 = 2" by code_simp
  have l2: "py_or (label_text (iter nested_landmarks ! 2)) ''p1'' = ''1''" by code_simp
  have l3: "py_or (label_text (iter nested_landmarks ! 3)) ''c2'' = ''c2''" by code_simp
  show ?thesis
    using get_pages_document_order [OF h1 h2 h3 h4 h5 h6, of "''item1.xhtml''"]
      h1 h2 h3 h4 h5 h6
    by (simp only: r2 r3 l2 l3)
qed

subsection \<open>The label of a page\<close>

lemma get_headers_loop_nonempty: "get_headers_loop elem ns = Some t \<Longrightarrow> t \<noteq> []"
  by (induction ns) (auto simp: Let_def split: list.splits if_splits)

lemma strip_Nil: "strip [] = []"
  by (simp add: strip_def)

lemma label_text_cases:
  "label_text e =
     (if strip (str_or_empty (elem_text e)) \<noteq> [] then Some (strip (str_or_empty (elem_text e)))
      else case get_attr e ''aria-label'' of
             Some a \<Rightarrow> Some a
           | None \<Rightarrow> get_headers e)"
  by (cases "elem_text e") (simp_all add: label_text_def str_or_empty_def strip_Nil split: option.splits)

lemma get_pages_step_qualifying:
  assumes "attrib_contains e ''epub:type''" and "get_attr e ''id'' = Some i"
  shows "get_pages_step nm pages e = pages @ [(nm, i, py_or (label_text e) i)]"
  using assms by (simp add: get_pages_step_def)

lemma py_or_nonempty: "d \<noteq> [] \<Longrightarrow> py_or t d \<noteq> []"
  by (simp add: py_or_def split: option.splits)

text \<open>
  C2, as the code has it. The page of a qualifying element with id \<open>i\<close> has the label:
  the trimmed direct text when that is not empty (whatever the attributes and the
  children are); else, when the attribute \<^verbatim>\<open>aria-label\<close> is present, its value as it
  is, or \<open>i\<close> when the value is the empty string; else, with no \<^verbatim>\<open>aria-label\<close>, the
  text \<^verbatim>\<open>get_headers\<close> returns, or \<open>i\<close> when it returns \<^verbatim>\<open>None\<close>.
\<close>

theorem get_pages_label_chain:
  assumes "attrib_contains e ''epub:type''" and "get_attr e ''id'' = Some i"
  shows "get_pages_step nm pages e =
           pages @ [(nm, i,
             (if strip (str_or_empty (elem_text e)) \<noteq> [] then strip (str_or_empty (elem_text e))
              else case get_attr e ''aria-label'' of
                     Some a \<Rightarrow> (if a \<noteq> [] then a else i)
                   | None \<Rightarrow> (case get_headers e of Some h \<Rightarrow> h | None \<Rightarrow> i)))]"
proof -
  have "py_or (label_text e) i =
          (if strip (str_or_empty (elem_text e)) \<noteq> [] then strip (str_or_empty (elem_text e))
           else case get_attr e ''aria-label'' of
                  Some a \<Rightarrow> (if a \<noteq> [] then a else i)
                | None \<Rightarrow> (case get_headers e of Some h \<Rightarrow> h | None \<Rightarrow> i))"
    using get_headers_loop_nonempty [of e "[1..<7]"]
    by (auto simp: label_text_cases py_or_def get_headers_def split: option.splits)
  then show ?thesis
    using get_pages_step_qualifying [OF assms] by simp
qed

theorem get_pages_label_chain_witness:
  "attrib_contains text_and_heading ''epub:type''
   \<and> get_attr text_and_heading ''id'' = Some ''ch1''
   \<and> get_pages_step ''item1.xhtml'' [] text_and_heading = [(''item1.xhtml'', ''ch1'', ''Page 1'')]"
proof -
  have h1: "attrib_contains text_and_heading ''epub:type''" by code_simp
  have h2: "get_attr text_and_heading ''id'' = Some ''ch1''" by code_simp
  have s: "strip (str_or_empty (elem_text text_and_heading)) = ''Page 1''" by code_simp
  show ?thesis
    using get_pages_label_chain [OF h1 h2, of "''item1.xhtml''" "[]"] h1 h2
    by (simp only: s) simp
qed

text \<open>
  C2 as stated takes the first non-empty candidate. With an empty \<^verbatim>\<open>aria-label\<close> and a
  heading \<^verbatim>\<open>Intro\<close> that candidate is the heading, and the page has the id as its
  label: an \<^verbatim>\<open>aria-label\<close> that is present stops the chain before the heading.
\<close>

theorem empty_aria_label_hides_heading:
  "get_pages_tree ''item1.xhtml'' empty_aria_label = [(''item1.xhtml'', ''ch1'', ''ch1'')]
   \<and> spec_first_nonempty_candidate empty_aria_label ''ch1'' = ''Intro''"
  by code_simp

text \<open>
  C4, as the code has it. For a qualifying element whose direct text is absent or
  blank, \<^verbatim>\<open>_text\<close> is the \<^verbatim>\<open>aria-label\<close> value whenever the attribute is present,
  untrimmed and unchecked, and \<^verbatim>\<open>get_headers\<close> is consulted only when the attribute is
  absent. A present \<^verbatim>\<open>aria-label\<close> is the label unless it is the empty string, in
  which case the label is the id.
\<close>

theorem get_pages_aria_label_presence:
  assumes "attrib_contains e ''epub:type''" and "get_attr e ''id'' = Some i"
    and "strip (str_or_empty (elem_text e)) = []"
  shows "label_text e = (case get_attr e ''aria-label'' of Some a \<Rightarrow> Some a | None \<Rightarrow> get_headers e)
       \<and> (get_attr e ''aria-label'' = Some a \<longrightarrow>
            get_pages_step nm pages e = pages @ [(nm, i, if a = [] then i else a)])
       \<and> (get_attr e ''aria-label'' = None \<longrightarrow>
            get_pages_step nm pages e =
              pages @ [(nm, i, case get_headers e of Some h \<Rightarrow> h | None \<Rightarrow> i)])"
proof -
  have l: "label_text e = (case get_attr e ''aria-label'' of Some a \<Rightarrow> Some a | None \<Rightarrow> get_headers e)"
    using assms(3) by (simp add: label_text_cases)
  have "get_attr e ''aria-label'' = Some a \<Longrightarrow> py_or (label_text e) i = (if a = [] then i else a)"
    by (simp add: l py_or_def)
  moreover have "get_attr e ''aria-label'' = None \<Longrightarrow>
      py_or (label_text e) i = (case get_headers e of Some h \<Rightarrow> h | None \<Rightarrow> i)"
    using get_headers_loop_nonempty [of e "[1..<7]"]
    by (auto simp: l py_or_def get_headers_def split: option.splits)
  ultimately show ?thesis
    using l get_pages_step_qualifying [OF assms(1,2), of nm pages] by simp
qed

theorem get_pages_aria_label_presence_witness:
  "attrib_contains blank_aria_label ''epub:type''
   \<and> get_attr blank_aria_label ''id'' = Some ''ch1''
   \<and> strip (str_or_empty (elem_text blank_aria_label)) = []
   \<and> get_attr blank_aria_label ''aria-label'' = Some '' ''
   \<and> label_text blank_aria_label = Some '' ''
   \<and> get_pages_step ''item1.xhtml'' [] blank_aria_label = [(''item1.xhtml'', ''ch1'', '' '')]"
proof -
  have h1: "attrib_contains blank_aria_label ''epub:type''" by code_simp
  have h2: "get_attr blank_aria_label ''id'' = Some ''ch1''" by code_simp
  have h3: "strip (str_or_empty (elem_text blank_aria_label)) = []" by code_simp
  have h4: "get_attr blank_aria_label ''aria-label'' = Some '' ''" by code_simp
  show ?thesis
    using get_pages_aria_label_presence [OF h1 h2 h3, of "'' ''" "''item1.xhtml''" "[]"] h1 h2 h3 h4
    by simp
qed

text \<open>
  C4 as stated has a whitespace-only \<^verbatim>\<open>aria-label\<close> passed over for the heading. The
  code makes the blank value the label although \<^verbatim>\<open>get_headers\<close> would find \<^verbatim>\<open>Intro\<close>.
\<close>

theorem blank_aria_label_is_the_label:
  "get_pages_tree ''item1.xhtml'' blank_aria_label = [(''item1.xhtml'', ''ch1'', '' '')]
   \<and> strip '' '' = []
   \<and> get_headers blank_aria_label = Some ''Intro''"
  by code_simp

text \<open>
  C3, as the code has it. Every page of the result carries the item's name and a label
  string. The label is not empty when the anchor id is not empty, and the page comes
  from a node of the traversal with that id whose label is \<^verbatim>\<open>_text\<close> when that is a
  non-empty string and the id otherwise.
\<close>

theorem get_pages_label_empty_only_if_id_empty:
  assumes "(n, i, l) \<in> set (get_pages_tree nm body)"
  shows "n = nm \<and> (i \<noteq> [] \<longrightarrow> l \<noteq> [])
       \<and> (\<exists>e\<in>set (iter body). get_attr e ''id'' = Some i
            \<and> (case label_text e of None \<Rightarrow> l = i | Some t \<Rightarrow> l = (if t = [] then i else t)))"
proof -
  let ?Q = "\<lambda>e. ''epub:type'' \<in> fst ` set (attrib e) \<and> ''id'' \<in> fst ` set (attrib e)"
  let ?F = "\<lambda>e. (nm, the (get_attr e ''id''), py_or (label_text e) (the (get_attr e ''id'')))"
  have "(n, i, l) \<in> set (map ?F (filter ?Q (iter body)))"
    using assms by (simp only: get_pages_tree_map_filter)
  then obtain e where e: "e \<in> set (iter body)" "?Q e" "(n, i, l) = ?F e"
    by auto
  from e(2) have "get_attr e ''id'' \<noteq> None"
    using get_attr_None_iff [of e "''id''"] by simp
  with e(3) have g: "get_attr e ''id'' = Some i" and l: "l = py_or (label_text e) i" and n: "n = nm"
    by auto
  have c: "case label_text e of None \<Rightarrow> l = i | Some t \<Rightarrow> l = (if t = [] then i else t)"
    by (simp add: l py_or_def split: option.splits)
  have "i \<noteq> [] \<longrightarrow> l \<noteq> []"
    using l py_or_nonempty [of i "label_text e"] by simp
  moreover have "\<exists>e\<in>set (iter body). get_attr e ''id'' = Some i
            \<and> (case label_text e of None \<Rightarrow> l = i | Some t \<Rightarrow> l = (if t = [] then i else t))"
    using e(1) g c by (intro bexI [of _ e] conjI)
  ultimately show ?thesis
    using n by (intro conjI)
qed

theorem get_pages_label_empty_only_if_id_empty_witness:
  "(''item1.xhtml'', ''ch1'', '' '') \<in> set (get_pages_tree ''item1.xhtml'' blank_aria_label)
   \<and> ''ch1'' \<noteq> [] \<and> '' '' \<noteq> []"
proof -
  have h: "(''item1.xhtml'', ''ch1'', '' '') \<in> set (get_pages_tree ''item1.xhtml'' blank_aria_label)"
    by code_simp
  show ?thesis
    using get_pages_label_empty_only_if_id_empty [OF h] h by simp
qed

text \<open>
  C3 as stated has the label never empty. The element
  \<^verbatim>\<open><div epub:type="chapter" id=""></div>\<close> qualifies, its id being present, and its
  page has the empty label.
\<close>

theorem empty_id_gives_empty_label:
  "get_pages_tree ''item1.xhtml''
     (Element ''div'' [(''epub:type'', ''chapter''), (''id'', '''')] None [] None)
   = [(''item1.xhtml'', '''', '''')]"
  by code_simp

subsection \<open>The heading fallback\<close>

lemma h_tags: "map h_tag [1..<7] = [''h1'', ''h2'', ''h3'', ''h4'', ''h5'', ''h6'']"
  by code_simp

lemma get_headers_loop_first_nonempty:
  "get_headers_loop elem ns =
     (case filter (\<lambda>t. t \<noteq> [])
             (map (\<lambda>h. strip (text_content h))
                (concat (map (\<lambda>n. take 1 (xpath_child elem (h_tag n))) ns))) of
        [] \<Rightarrow> None
      | t # _ \<Rightarrow> Some t)"
proof (induction ns)
  case Nil
  show ?case by simp
next
  case (Cons n ns)
  show ?case
  proof (cases "xpath_child elem (h_tag n)")
    case Nil
    then show ?thesis using Cons.IH by simp
  next
    case (Cons h rest)
    then show ?thesis using Cons.IH by (simp add: Let_def)
  qed
qed

lemma get_headers_loop_all_blank:
  assumes "\<forall>n\<in>set ns. \<forall>h\<in>set (xpath_child elem (h_tag n)). strip (text_content h) = []"
  shows "get_headers_loop elem ns = None"
  using assms
proof (induction ns)
  case Nil
  show ?case by simp
next
  case (Cons n ns)
  then show ?case by (cases "xpath_child elem (h_tag n)") (simp_all add: Let_def)
qed

lemma get_headers_loop_source:
  assumes "get_headers_loop elem ns = Some t"
  shows "\<exists>n\<in>set ns. \<exists>h\<in>set (children elem).
           is_Element h \<and> tag h = h_tag n \<and> t = strip (text_content h) \<and> t \<noteq> []"
  using assms
proof (induction ns)
  case Nil
  then show ?case by simp
next
  case (Cons n ns)
  show ?case
  proof (cases "xpath_child elem (h_tag n)")
    case Nil
    then show ?thesis using Cons by simp
  next
    case (Cons h rest)
    then have "h \<in> set (xpath_child elem (h_tag n))" by simp
    then have hc: "h \<in> set (children elem) \<and> is_Element h \<and> tag h = h_tag n"
      by (simp add: xpath_child_def)
    show ?thesis
    proof (cases "strip (text_content h) = []")
      case True
      then show ?thesis using Cons.prems Cons.IH \<open>xpath_child elem (h_tag n) = h # rest\<close>
        by (simp add: Let_def)
    next
      case False
      then have "t = strip (text_content h)"
        using Cons.prems \<open>xpath_child elem (h_tag n) = h # rest\<close> by (simp add: Let_def)
      then show ?thesis using hc False by auto
    qed
  qed
qed

lemma get_headers_loop_skip:
  "xpath_child e (h_tag n) = h # rest \<Longrightarrow> strip (text_content h) = []
   \<Longrightarrow> get_headers_loop e (n # ns) = get_headers_loop e ns"
  by (simp add: Let_def)

text \<open>
  C5, as the code has it. \<^verbatim>\<open>get_headers\<close> takes, for each of the levels 1 to 6 in
  that order, the first child element named \<^verbatim>\<open>h1\<close> to \<^verbatim>\<open>h6\<close> if there is one, and
  no other heading of that level. It returns the trimmed flattened text of the first of
  these (at most six) headings whose trimmed text is not empty, and \<^verbatim>\<open>None\<close> when none
  of them has one. A text it returns is the non-empty trimmed text of a direct child
  heading, and it returns \<^verbatim>\<open>None\<close> in particular when no direct child heading of any
  level has non-empty text.
\<close>

theorem get_headers_first_nonempty_heading:
  "get_headers elem =
     (case filter (\<lambda>t. t \<noteq> [])
             (map (\<lambda>h. strip (text_content h))
                (concat (map (\<lambda>n. take 1 (xpath_child elem (h_tag n))) [1..<7]))) of
        [] \<Rightarrow> None
      | t # _ \<Rightarrow> Some t)
   \<and> map h_tag [1..<7] = [''h1'', ''h2'', ''h3'', ''h4'', ''h5'', ''h6'']
   \<and> (get_headers elem = Some t \<longrightarrow>
        (\<exists>n\<in>{1..<7}. \<exists>h\<in>set (children elem).
           is_Element h \<and> tag h = h_tag n \<and> t = strip (text_content h) \<and> t \<noteq> []))
   \<and> ((\<forall>n\<in>{1..<7}. \<forall>h\<in>set (xpath_child elem (h_tag n)). strip (text_content h) = [])
        \<longrightarrow> get_headers elem = None)"
proof -
  have a: "get_headers elem = Some t \<longrightarrow>
        (\<exists>n\<in>{1..<7}. \<exists>h\<in>set (children elem).
           is_Element h \<and> tag h = h_tag n \<and> t = strip (text_content h) \<and> t \<noteq> [])"
    using get_headers_loop_source [of elem "[1..<7]" t] by (simp add: get_headers_def)
  have b: "(\<forall>n\<in>{1..<7}. \<forall>h\<in>set (xpath_child elem (h_tag n)). strip (text_content h) = [])
        \<longrightarrow> get_headers elem = None"
    using get_headers_loop_all_blank [of "[1..<7]" elem] by (simp add: get_headers_def)
  show ?thesis
    using a b h_tags get_headers_loop_first_nonempty [of elem "[1..<7]"]
    by (simp only: get_headers_def) 
qed


theorem get_headers_first_nonempty_heading_witness:
  "get_headers mixed_headings = Some ''Part One of two''
   \<and> (\<exists>n\<in>{1..<7}. \<exists>h\<in>set (children mixed_headings).
        is_Element h \<and> tag h = h_tag n
        \<and> ''Part One of two'' = strip (text_content h) \<and> ''Part One of two'' \<noteq> [])
   \<and> get_headers blank_headings = None"
proof -
  have h1: "get_headers mixed_headings = Some ''Part One of two''" by code_simp
  have "\<forall>n\<in>set [1..<7]. \<forall>h\<in>set (xpath_child blank_headings (h_tag n)). strip (text_content h) = []"
    by code_simp
  then have h2: "\<forall>n\<in>{1..<7}. \<forall>h\<in>set (xpath_child blank_headings (h_tag n)). strip (text_content h) = []"
    by simp
  show ?thesis
    using get_headers_first_nonempty_heading [of mixed_headings "''Part One of two''"]
      get_headers_first_nonempty_heading [of blank_headings] h1 h2
    by blast
qed

text \<open>
  C5 as stated returns the text of the first heading with non-empty trimmed text, and
  \<^verbatim>\<open>None\<close> only for want of one. In \<^verbatim>\<open><div><h1> </h1><h1>B</h1></div>\<close> that heading
  is the second \<^verbatim>\<open>h1\<close>; the code looks at the first \<^verbatim>\<open>h1\<close> only and returns
  \<^verbatim>\<open>None\<close>.
\<close>

theorem later_heading_of_level_not_found:
  "get_headers blank_then_text_h1 = None
   \<and> spec_get_headers blank_then_text_h1 = Some ''B''"
  by code_simp

text \<open>
  C10. The result of \<^verbatim>\<open>get_headers\<close> depends, at each level, on the first child
  heading of that level only: two elements that agree on these give the same result.
  When the first \<^verbatim>\<open>h1\<close> child has blank text, the later \<^verbatim>\<open>h1\<close> children are not
  looked at and the search goes on with the levels 2 to 6.
\<close>

theorem get_headers_first_of_level_only:
  "((\<forall>n\<in>{1..<7}. take 1 (xpath_child e (h_tag n)) = take 1 (xpath_child e' (h_tag n)))
      \<longrightarrow> get_headers e = get_headers e')
   \<and> (xpath_child e ''h1'' = h # rest \<and> strip (text_content h) = []
      \<longrightarrow> get_headers e = get_headers_loop e [2..<7])"
proof -
  have a: "get_headers e = get_headers e'"
    if "\<forall>n\<in>{1..<7}. take 1 (xpath_child e (h_tag n)) = take 1 (xpath_child e' (h_tag n))"
  proof -
    have "map (\<lambda>n. take 1 (xpath_child e (h_tag n))) [1..<7]
          = map (\<lambda>n. take 1 (xpath_child e' (h_tag n))) [1..<7]"
      using that by (intro map_cong) simp_all
    then show ?thesis
      by (simp only: get_headers_def get_headers_loop_first_nonempty)
  qed
  have t: "h_tag 1 = ''h1''" by code_simp
  have u: "[1..<7] = 1 # [2..<7]" by (simp add: upt_rec)
  have b: "get_headers e = get_headers_loop e [2..<7]"
    if "xpath_child e ''h1'' = h # rest \<and> strip (text_content h) = []"
    using that get_headers_loop_skip [of e 1 h rest "[2..<7]"]
    by (simp only: get_headers_def u t)
  show ?thesis using a b by blast
qed

theorem get_headers_first_of_level_only_witness:
  "get_headers blank_first_h1 = get_headers blank_only_h1
   \<and> xpath_child blank_first_h1 ''h1''
       = Element ''h1'' [] (Some '' '') [] None # [Element ''h1'' [] (Some ''B'') [] None]
   \<and> strip (text_content (Element ''h1'' [] (Some '' '') [] None)) = []
   \<and> get_headers blank_first_h1 = get_headers_loop blank_first_h1 [2..<7]
   \<and> get_headers blank_first_h1 = Some ''C''"
proof -
  have "\<forall>n\<in>set [1..<7]. take 1 (xpath_child blank_first_h1 (h_tag n))
                  = take 1 (xpath_child blank_only_h1 (h_tag n))"
    by code_simp
  then have h1: "\<forall>n\<in>{1..<7}. take 1 (xpath_child blank_first_h1 (h_tag n))
                  = take 1 (xpath_child blank_only_h1 (h_tag n))"
    by simp
  have h2: "xpath_child blank_first_h1 ''h1''
       = Element ''h1'' [] (Some '' '') [] None # [Element ''h1'' [] (Some ''B'') [] None]"
    by code_simp
  have h3: "strip (text_content (Element ''h1'' [] (Some '' '') [] None)) = []"
    by code_simp
  have r: "get_headers blank_first_h1 = Some ''C''" by code_simp
  show ?thesis
    using get_headers_first_of_level_only [of blank_first_h1 blank_only_h1
        "Element ''h1'' [] (Some '' '') [] None" "[Element ''h1'' [] (Some ''B'') [] None]"]
      h1 h2 h3 r
    by (intro conjI) blast+
qed

subsection \<open>Items and the parser\<close>

lemma pages_from_docs_all_ok:
  assumes "\<forall>it\<in>set items. \<exists>ps. get_pages P it = Inr ps"
  shows "pages_from_docs P items = Inr (map (\<lambda>it. projr (get_pages P it)) items)"
  using assms by (induction items) auto

lemma pages_from_docs_append:
  "pages_from_docs P (xs @ ys) =
     (case pages_from_docs P xs of
        Inl e \<Rightarrow> Inl e
      | Inr ds \<Rightarrow> (case pages_from_docs P ys of Inl e \<Rightarrow> Inl e | Inr es \<Rightarrow> Inr (ds @ es)))"
  by (induction xs) (auto split: sum.splits)

lemma get_pages_for_items_drop_empty:
  assumes "get_pages P it = Inr []"
  shows "get_pages_for_items P (xs @ it # ys) = get_pages_for_items P (xs @ ys)"
  using assms
  by (simp add: get_pages_for_items_def pages_from_docs_append split: sum.splits)

lemma pages_from_docs_failing:
  assumes "it \<in> set items" and "get_pages P it = Inl e"
  shows "\<exists>e'. pages_from_docs P items = Inl e'"
  using assms
proof (induction items)
  case Nil
  then show ?case by simp
next
  case (Cons a items)
  show ?case
  proof (cases "get_pages P a")
    case (Inl e')
    then show ?thesis by simp
  next
    case (Inr ps)
    with Cons.prems have "it \<in> set items" by auto
    then obtain e' where "pages_from_docs P items = Inl e'"
      using Cons.IH Cons.prems(2) by (elim exE | simp)+
    with Inr show ?thesis by simp
  qed
qed

text \<open>
  C7. When \<^verbatim>\<open>get_pages\<close> returns for every item, \<^verbatim>\<open>get_pages_for_items\<close> returns the
  concatenation of its results in the order of the items (and raises when it raises
  for some item). The empty list gives the empty list, and an item without landmarks
  can be removed from the list without changing the result.
\<close>

theorem get_pages_for_items_concat:
  "((\<forall>it\<in>set items. \<exists>ps. get_pages P it = Inr ps) \<longrightarrow>
      get_pages_for_items P items = Inr (concat (map (\<lambda>it. projr (get_pages P it)) items)))
   \<and> get_pages_for_items P [] = Inr []
   \<and> (get_pages P it = Inr [] \<longrightarrow>
        get_pages_for_items P (xs @ it # ys) = get_pages_for_items P (xs @ ys))
   \<and> ((\<exists>it\<in>set items. \<exists>e. get_pages P it = Inl e) \<longrightarrow>
        (\<exists>e. get_pages_for_items P items = Inl e))"
proof -
  have "(\<exists>it\<in>set items. \<exists>e. get_pages P it = Inl e) \<longrightarrow>
        (\<exists>e. get_pages_for_items P items = Inl e)"
  proof
    assume "\<exists>it\<in>set items. \<exists>e. get_pages P it = Inl e"
    then obtain j e where j: "j \<in> set items" "get_pages P j = Inl e"
      by (elim bexE exE)
    obtain e' where "pages_from_docs P items = Inl e'"
      using pages_from_docs_failing [of j items P e] j by (elim exE | simp)+
    then show "\<exists>e. get_pages_for_items P items = Inl e"
      by (simp add: get_pages_for_items_def)
  qed
  then show ?thesis
    using pages_from_docs_all_ok [of items P] get_pages_for_items_drop_empty [of P it xs ys]
    by (simp add: get_pages_for_items_def)
qed

theorem get_pages_for_items_concat_witness:
  "get_pages_for_items sample_document_fromstring [item1, no_landmark_item, item2]
     = Inr [(''item1.xhtml'', ''p1'', ''p1''), (''item2.xhtml'', ''p1'', ''p1'')]
   \<and> get_pages sample_document_fromstring no_landmark_item = Inr []
   \<and> get_pages_for_items sample_document_fromstring ([item1] @ no_landmark_item # [item2])
       = get_pages_for_items sample_document_fromstring ([item1] @ [item2])"
proof -
  have p1: "get_pages sample_document_fromstring item1 = Inr [(''item1.xhtml'', ''p1'', ''p1'')]"
    by code_simp
  have p2: "get_pages sample_document_fromstring item2 = Inr [(''item2.xhtml'', ''p1'', ''p1'')]"
    by code_simp
  have p0: "get_pages sample_document_fromstring no_landmark_item = Inr []"
    by code_simp
  have h: "\<forall>it\<in>set [item1, no_landmark_item, item2].
             \<exists>ps. get_pages sample_document_fromstring it = Inr ps"
    using p0 p1 p2 by simp
  note t = get_pages_for_items_concat
            [of "[item1, no_landmark_item, item2]" sample_document_fromstring
                no_landmark_item "[item1]" "[item2]"]
  have "get_pages_for_items sample_document_fromstring [item1, no_landmark_item, item2]
          = Inr (concat (map (\<lambda>it. projr (get_pages sample_document_fromstring it))
                   [item1, no_landmark_item, item2]))"
    using t h by blast
  then have a: "get_pages_for_items sample_document_fromstring [item1, no_landmark_item, item2]
                  = Inr [(''item1.xhtml'', ''p1'', ''p1''), (''item2.xhtml'', ''p1'', ''p1'')]"
    by (simp add: p0 p1 p2)
  have c: "get_pages_for_items sample_document_fromstring ([item1] @ no_landmark_item # [item2])
             = get_pages_for_items sample_document_fromstring ([item1] @ [item2])"
    using t p0 by blast
  show ?thesis
    using a p0 c by (intro conjI)
qed


text \<open>
  C8, as the code has it. Neither \<^verbatim>\<open>parse_html_string\<close> nor \<^verbatim>\<open>get_pages\<close> has a handler:
  \<^verbatim>\<open>get_pages\<close> raises exactly the error \<^verbatim>\<open>document_fromstring\<close> raises on the body
  markup, and returns the pages of the tree whenever the library returns one.
\<close>

theorem get_pages_propagates_parser_error:
  "(get_pages P item = Inl e \<longleftrightarrow> P (get_body_content item) = Inl e)
   \<and> (P (get_body_content item) = Inr body \<longrightarrow>
        get_pages P item = Inr (get_pages_tree (get_name item) body))"
  by (simp add: get_pages_def parse_html_string_def split: sum.splits)

theorem get_pages_propagates_parser_error_witness:
  "sample_document_fromstring (get_body_content item1)
     = Inr (Element ''html'' [] None
             [Element ''body'' [] None
                [Element ''span'' [(''epub:type'', ''pagebreak''), (''id'', ''p1'')] None [] None,
                 Element ''p'' [] (Some ''p1'') [] None]
                None]
             None)
   \<and> get_pages sample_document_fromstring item1 = Inr [(''item1.xhtml'', ''p1'', ''p1'')]"
proof -
  let ?body = "Element ''html'' [] None
             [Element ''body'' [] None
                [Element ''span'' [(''epub:type'', ''pagebreak''), (''id'', ''p1'')] None [] None,
                 Element ''p'' [] (Some ''p1'') [] None]
                None]
             None"
  have h: "sample_document_fromstring (get_body_content item1) = Inr ?body"
    by (simp add: sample_document_fromstring_def item1_def)
  have n: "get_name item1 = ''item1.xhtml''" by (simp add: item1_def)
  have t: "get_pages_tree ''item1.xhtml'' ?body = [(''item1.xhtml'', ''p1'', ''p1'')]"
    by code_simp
  show ?thesis
    using get_pages_propagates_parser_error [of sample_document_fromstring item1 ParserError ?body] h
    by (simp only: n t)
qed

text \<open>
  C8 as stated has no string, the empty one included, make \<^verbatim>\<open>get_pages\<close> raise. With
  a parser that raises on the empty document, \<^verbatim>\<open>get_pages\<close> passes the error on. The
  parser here is the stand-in \<^const>\<open>sample_document_fromstring\<close>, which follows what
  \<^verbatim>\<open>lxml.html.document_fromstring\<close> does on an empty string; the library itself is not
  part of the embedding.
\<close>

theorem empty_document_raises:
  "get_pages sample_document_fromstring empty_item = Inl ParserError"
  by (simp add: get_pages_def parse_html_string_def sample_document_fromstring_def empty_item_def)

text \<open>
  C9. The result of \<^verbatim>\<open>get_pages\<close> is determined by the body markup and the name of
  the item: two items with the same markup and the same name, whatever else they
  hold, give the same pages in the same order (or the same error).
\<close>

theorem get_pages_depends_on_body_and_name:
  fixes a :: "'a epub_item_scheme" and b :: "'b epub_item_scheme"
  assumes "get_name a = get_name b" and "get_body_content a = get_body_content b"
  shows "get_pages P a = get_pages P b"
  by (simp only: get_pages_def assms)

theorem get_pages_depends_on_body_and_name_witness:
  "get_name item1 = get_name \<lparr>get_name = ''item1.xhtml'', get_body_content = ''p1'', \<dots> = True\<rparr>
   \<and> get_body_content item1
       = get_body_content \<lparr>get_name = ''item1.xhtml'', get_body_content = ''p1'', \<dots> = True\<rparr>
   \<and> get_pages sample_document_fromstring item1
       = get_pages sample_document_fromstring
           \<lparr>get_name = ''item1.xhtml'', get_body_content = ''p1'', \<dots> = True\<rparr>
   \<and> get_pages sample_document_fromstring item1 = Inr [(''item1.xhtml'', ''p1'', ''p1'')]"
proof -
  have h1: "get_name item1 = get_name \<lparr>get_name = ''item1.xhtml'', get_body_content = ''p1'', \<dots> = True\<rparr>"
    by (simp add: item1_def)
  have h2: "get_body_content item1
       = get_body_content \<lparr>get_name = ''item1.xhtml'', get_body_content = ''p1'', \<dots> = True\<rparr>"
    by (simp add: item1_def)
  have r: "get_pages sample_document_fromstring item1 = Inr [(''item1.xhtml'', ''p1'', ''p1'')]"
    by code_simp
  show ?thesis
    using get_pages_depends_on_body_and_name [OF h1 h2, of sample_document_fromstring] h1 h2 r
    by simp
qed

end
